theory Spec2Isabelle
  imports Main
begin

section \<open>Cake Time: the birthday countdown of \<open>lambda_function.py\<close>\<close>

text \<open>
  The development embeds \<open>HasBirthdayLaunchRequestHandler.handle\<close> of
  \<open>src/lambda/lambda_function.py\<close>. Exceptions are values of \<open>py_error\<close>, a result is
  \<open>py_error + 'a\<close> with \<open>Inl\<close> the raised exception. Python's unbounded integers are
  \<open>int\<close>. Strings are \<open>char list\<close>s and are read as ASCII text: the case functions
  below change the letters \<open>A-Z\<close> and \<open>a-z\<close> only and treat every other character as
  uncased.
\<close>

datatype py_error =
    ValueError | TypeError | KeyError | IndexError | AttributeError
  | UnknownTimeZoneError | RequestException | OverflowError

subsection \<open>Python string operations used by the handler\<close>

definition isupper_c :: "char \<Rightarrow> bool" where
  "isupper_c c = (65 \<le> (of_char c :: nat) \<and> (of_char c :: nat) \<le> 90)"

definition islower_c :: "char \<Rightarrow> bool" where
  "islower_c c = (97 \<le> (of_char c :: nat) \<and> (of_char c :: nat) \<le> 122)"

definition lower_c :: "char \<Rightarrow> char" where
  "lower_c c = (if isupper_c c then char_of ((of_char c :: nat) + 32) else c)"

definition upper_c :: "char \<Rightarrow> char" where
  "upper_c c = (if islower_c c then char_of ((of_char c :: nat) - 32) else c)"

text \<open>\<open>str.lower\<close>.\<close>

definition lower :: "string \<Rightarrow> string" where
  "lower s = map lower_c s"

text \<open>
  \<open>str.title\<close>: a cased character that follows an uncased one (or starts the string) is
  upper-cased, a cased character that follows a cased one is lower-cased. The flag is
  CPython's \<open>previous_is_cased\<close>.
\<close>

fun title_from :: "bool \<Rightarrow> string \<Rightarrow> string" where
  "title_from previous_is_cased [] = []"
| "title_from previous_is_cased (c # cs) =
     (if islower_c c then
        (if previous_is_cased then c else upper_c c) # title_from True cs
      else if isupper_c c then
        (if previous_is_cased then lower_c c else c) # title_from True cs
      else c # title_from False cs)"

definition title :: "string \<Rightarrow> string" where
  "title s = title_from False s"

text \<open>\<open>list.index\<close>: the first position of the element, \<open>ValueError\<close> when it is absent.\<close>

fun list_index :: "'a list \<Rightarrow> 'a \<Rightarrow> py_error + int" where
  "list_index [] x = Inl ValueError"
| "list_index (y # ys) x =
     (if y = x then Inr 0
      else (case list_index ys x of Inl e \<Rightarrow> Inl e | Inr i \<Rightarrow> Inr (i + 1)))"

text \<open>\<open>str(n)\<close> for an integer: decimal digits, with a leading minus sign when negative.\<close>

definition digit_char :: "nat \<Rightarrow> char" where
  "digit_char n = char_of (48 + n)"

function str_nat :: "nat \<Rightarrow> string" where
  "str_nat n = (if n < 10 then [digit_char n] else str_nat (n div 10) @ [digit_char (n mod 10)])"
  by pat_completeness auto
termination
  by (relation "measure (\<lambda>n. n)") auto

definition py_str :: "int \<Rightarrow> string" where
  "py_str i = (if i < 0 then CHR ''-'' # str_nat (nat (- i)) else str_nat (nat i))"

text \<open>\<open>s[-1]\<close>: the last character, \<open>IndexError\<close> on the empty string.\<close>

definition last_char :: "string \<Rightarrow> py_error + char" where
  "last_char s = (case rev s of [] \<Rightarrow> Inl IndexError | c # _ \<Rightarrow> Inr c)"

text \<open>
  \<open>str.replace(old, new)\<close>: every non-overlapping occurrence of \<open>old\<close>, scanning from the
  left. With an empty \<open>old\<close> Python inserts \<open>new\<close> before every character and at the end.
\<close>

function replace_from :: "string \<Rightarrow> string \<Rightarrow> string \<Rightarrow> string" where
  "replace_from old new s =
     (if s = [] \<or> old = [] then s
      else if take (length old) s = old then new @ replace_from old new (drop (length old) s)
      else hd s # replace_from old new (tl s))"
  by pat_completeness auto
termination
  by (relation "measure (\<lambda>(old, new, s). length s)") auto

definition replace :: "string \<Rightarrow> string \<Rightarrow> string \<Rightarrow> string" where
  "replace s old new =
     (if old = [] then new @ concat (map (\<lambda>c. c # new) s) else replace_from old new s)"

subsection \<open>The calendar and datetime operations used by the handler\<close>

text \<open>
  \<open>list(calendar.month_abbr)\<close> in the English (C) locale: thirteen entries, the first one the
  empty placeholder that makes January index 1.
\<close>

definition month_abbr :: "string list" where
  "month_abbr = ['''', ''Jan'', ''Feb'', ''Mar'', ''Apr'', ''May'', ''Jun'',
                 ''Jul'', ''Aug'', ''Sep'', ''Oct'', ''Nov'', ''Dec'']"

text \<open>\<open>calendar.month_name\<close>, used only to state what a full month name is.\<close>

definition month_name :: "string list" where
  "month_name = ['''', ''January'', ''February'', ''March'', ''April'', ''May'', ''June'',
                 ''July'', ''August'', ''September'', ''October'', ''November'', ''December'']"

text \<open>
  A naive \<open>datetime\<close> at midnight: the handler builds every value it compares with
  \<open>datetime(y, m, d)\<close>, so hour, minute, second and microsecond are always zero and are left out.
\<close>

record datetime =
  dt_year :: int
  dt_month :: int
  dt_day :: int

definition is_leap :: "int \<Rightarrow> bool" where
  "is_leap y = (y mod 4 = 0 \<and> (y mod 100 \<noteq> 0 \<or> y mod 400 = 0))"

definition DAYS_IN_MONTH :: "int list" where
  "DAYS_IN_MONTH = [-1, 31, 28, 31, 30, 31, 30, 31, 31, 30, 31, 30, 31]"

definition DAYS_BEFORE_MONTH :: "int list" where
  "DAYS_BEFORE_MONTH = [-1, 0, 31, 59, 90, 120, 151, 181, 212, 243, 273, 304, 334]"

text \<open>Both are called with \<open>1 \<le> m \<le> 12\<close> only, as in CPython, where an assertion says so.\<close>

definition days_in_month :: "int \<Rightarrow> int \<Rightarrow> int" where
  "days_in_month y m = (if m = 2 \<and> is_leap y then 29 else DAYS_IN_MONTH ! nat m)"

definition days_before_month :: "int \<Rightarrow> int \<Rightarrow> int" where
  "days_before_month y m = DAYS_BEFORE_MONTH ! nat m + (if m > 2 \<and> is_leap y then 1 else 0)"

definition days_before_year :: "int \<Rightarrow> int" where
  "days_before_year y = (let y1 = y - 1 in y1 * 365 + y1 div 4 - y1 div 100 + y1 div 400)"

text \<open>
  \<open>datetime(y, m, d)\<close>: the arguments are converted to C integers first, \<open>OverflowError\<close>
  when one does not fit; then \<open>ValueError\<close> unless the fields name a day of the calendar.
\<close>

definition c_int :: "int \<Rightarrow> bool" where
  "c_int n = (- 2147483648 \<le> n \<and> n \<le> 2147483647)"

definition mk_datetime :: "int \<Rightarrow> int \<Rightarrow> int \<Rightarrow> py_error + datetime" where
  "mk_datetime y m d =
     (if \<not> (c_int y \<and> c_int m \<and> c_int d) then Inl OverflowError
      else if \<not> (1 \<le> y \<and> y \<le> 9999) then Inl ValueError
      else if \<not> (1 \<le> m \<and> m \<le> 12) then Inl ValueError
      else if \<not> (1 \<le> d \<and> d \<le> days_in_month y m) then Inl ValueError
      else Inr \<lparr>dt_year = y, dt_month = m, dt_day = d\<rparr>)"

text \<open>\<open>toordinal\<close>: the day number in the proleptic Gregorian calendar, 1 for 0001-01-01.\<close>

definition toordinal :: "datetime \<Rightarrow> int" where
  "toordinal t = days_before_year (dt_year t) + days_before_month (dt_year t) (dt_month t) + dt_day t"

text \<open>\<open>a > b\<close> on datetimes compares the field tuples lexicographically.\<close>

definition dt_greater :: "datetime \<Rightarrow> datetime \<Rightarrow> bool" where
  "dt_greater a b =
     (dt_year a > dt_year b
      \<or> (dt_year a = dt_year b
          \<and> (dt_month a > dt_month b \<or> (dt_month a = dt_month b \<and> dt_day a > dt_day b))))"

text \<open>\<open>(a - b).days\<close> for two datetimes at midnight.\<close>

definition sub_days :: "datetime \<Rightarrow> datetime \<Rightarrow> int" where
  "sub_days a b = toordinal a - toordinal b"

text \<open>
  The dates a \<open>datetime\<close> can hold. Every value that \<open>mk_datetime\<close> returns satisfies it.
\<close>

definition valid_date :: "datetime \<Rightarrow> bool" where
  "valid_date t =
     (1 \<le> dt_month t \<and> dt_month t \<le> 12
      \<and> 1 \<le> dt_day t \<and> dt_day t \<le> days_in_month (dt_year t) (dt_month t))"

subsection \<open>The countdown computed by \<open>HasBirthdayLaunchRequestHandler.handle\<close>\<close>

text \<open>
  A render directive names the documents it was built from: \<open>_load_apl_document\<close> reads a
  JSON file of the skill package, and the document is represented by its path.
\<close>

datatype directive =
  RenderDocumentDirective (token: string) (document: string) (datasources: string)

text \<open>
  \<open>list(calendar.month_abbr).index(month[:3].title())\<close>: the position of the title-cased
  first three characters in the abbreviation table.
\<close>

definition month_index :: "string \<Rightarrow> py_error + int" where
  "month_index month = list_index month_abbr (title (take 3 month))"

text \<open>
  The block \<open>if now_date > next_birthday: ...\<close>: the next birthday and the year the age is
  computed against.
\<close>

definition advance :: "datetime \<Rightarrow> datetime \<Rightarrow> int \<Rightarrow> int \<Rightarrow> int \<Rightarrow> py_error + datetime \<times> int" where
  "advance now_d next_b cur_year idx day =
     (if dt_greater now_d next_b
      then (case mk_datetime (cur_year + 1) idx day of
              Inl e \<Rightarrow> Inl e
            | Inr nb \<Rightarrow> Inr (nb, cur_year + 1))
      else Inr (next_b, cur_year))"

text \<open>The chain \<open>if age[-1] == '1': ... else: ordinal = "th"\<close>.\<close>

definition ordinal_of :: "string \<Rightarrow> py_error + string" where
  "ordinal_of age_s =
     (case last_char age_s of
        Inl e \<Rightarrow> Inl e
      | Inr c \<Rightarrow> Inr (if c = CHR ''1'' then ''st''
                     else if c = CHR ''2'' then ''nd''
                     else if c = CHR ''3'' then ''rd''
                     else ''th''))"

text \<open>
  The local variables of the handler when it reaches \<open>response_builder.speak\<close>.
  \<open>diff_days\<close> is assigned only when today is not the birthday, so it is optional.
\<close>

record locals =
  now_date :: datetime
  month_as_index :: int
  next_birthday :: datetime
  current_year :: int
  age :: string
  ordinal :: string
  diff_days :: "int option"
  speak_output :: string
  display_directive :: directive

text \<open>The countdown sentence, with the grammar adjusted when one day is left.\<close>

definition countdown_phrase :: "int \<Rightarrow> string \<Rightarrow> string \<Rightarrow> string" where
  "countdown_phrase diff age_s ord_s =
     (let out = ''Welcome back. It looks like there are '' @ py_str diff
                @ '' days until your '' @ age_s @ ord_s @ '' birthday''
      in if diff = 1 then replace (replace out ''are'' ''is'') ''days'' ''day'' else out)"

text \<open>
  The statements from \<open>now_date = datetime(...)\<close> to the end of the
  \<open>if now_date != next_birthday\<close> block, as a function of the converted attributes and of
  \<open>now_time\<close>.
\<close>

definition countdown :: "int \<Rightarrow> string \<Rightarrow> int \<Rightarrow> datetime \<Rightarrow> py_error + locals" where
  "countdown year month day now_time =
     (case mk_datetime (dt_year now_time) (dt_month now_time) (dt_day now_time) of
        Inl e \<Rightarrow> Inl e
      | Inr now_d \<Rightarrow>
     (case month_index month of
        Inl e \<Rightarrow> Inl e
      | Inr idx \<Rightarrow>
     (case mk_datetime (dt_year now_time) idx day of
        Inl e \<Rightarrow> Inl e
      | Inr this_year \<Rightarrow>
     (case advance now_d this_year (dt_year now_time) idx day of
        Inl e \<Rightarrow> Inl e
      | Inr (next_b, cur_year) \<Rightarrow>
     (case ordinal_of (py_str (cur_year - year)) of
        Inl e \<Rightarrow> Inl e
      | Inr ord_s \<Rightarrow>
        Inr \<lparr>now_date = now_d, month_as_index = idx, next_birthday = next_b,
              current_year = cur_year, age = py_str (cur_year - year), ordinal = ord_s,
              diff_days = (if now_d \<noteq> next_b then Some \<bar>sub_days now_d next_b\<bar> else None),
              speak_output =
                (if now_d \<noteq> next_b
                 then countdown_phrase \<bar>sub_days now_d next_b\<bar> (py_str (cur_year - year)) ord_s
                 else ''Happy '' @ py_str (cur_year - year) @ ord_s @ '' birthday!''),
              display_directive = RenderDocumentDirective ''pagerToken'' ''launchDocument.json''
                (if now_d \<noteq> next_b then ''birthdayCountdownDataSources.json''
                 else ''hasBirthdayDataSources.json'')\<rparr>)))))"

subsection \<open>The handler and what surrounds the countdown\<close>

text \<open>
  \<open>int(s)\<close> on a string: surrounding whitespace is dropped, a sign may lead, and the
  digits may be grouped by single underscores. \<open>None\<close> is not a string: \<open>TypeError\<close>.
  The whitespace \<open>int\<close> skips in an ASCII string is the space and the characters 9 to 13
  (tab, line feed, vertical tab, form feed, carriage return); the separators 28 to 31,
  which \<open>str.isspace\<close> accepts, are not skipped.
\<close>

definition int_space_c :: "char \<Rightarrow> bool" where
  "int_space_c c = ((9 \<le> (of_char c :: nat) \<and> (of_char c :: nat) \<le> 13)
                    \<or> (of_char c :: nat) = 32)"

definition isdigit_c :: "char \<Rightarrow> bool" where
  "isdigit_c c = (48 \<le> (of_char c :: nat) \<and> (of_char c :: nat) \<le> 57)"

definition strip :: "string \<Rightarrow> string" where
  "strip s = rev (dropWhile int_space_c (rev (dropWhile int_space_c s)))"

fun int_body :: "bool \<Rightarrow> int \<Rightarrow> string \<Rightarrow> int option" where
  "int_body after_digit acc [] = (if after_digit then Some acc else None)"
| "int_body after_digit acc (c # cs) =
     (if isdigit_c c then int_body True (acc * 10 + (int (of_char c) - 48)) cs
      else if c = CHR ''_'' \<and> after_digit then int_body False acc cs
      else None)"

definition py_int :: "string option \<Rightarrow> py_error + int" where
  "py_int v =
     (case v of
        None \<Rightarrow> Inl TypeError
      | Some s \<Rightarrow>
         (case strip s of
            c # cs \<Rightarrow>
              (if c = CHR ''-'' then
                 (case int_body False 0 cs of None \<Rightarrow> Inl ValueError | Some n \<Rightarrow> Inr (- n))
               else if c = CHR ''+'' then
                 (case int_body False 0 cs of None \<Rightarrow> Inl ValueError | Some n \<Rightarrow> Inr n)
               else
                 (case int_body False 0 (c # cs) of None \<Rightarrow> Inl ValueError | Some n \<Rightarrow> Inr n))
          | [] \<Rightarrow> Inl ValueError))"

text \<open>
  The persistent attributes are the slot values \<open>CaptureBirthdayIntentHandler\<close> saved: each
  is a string, or \<open>None\<close> for a slot that was not filled. A missing key is \<open>KeyError\<close>.
\<close>

type_synonym attributes = "string \<rightharpoonup> string option"

definition attr_get :: "attributes \<Rightarrow> string \<Rightarrow> py_error + string option" where
  "attr_get attr k = (case attr k of None \<Rightarrow> Inl KeyError | Some v \<Rightarrow> Inr v)"

text \<open>What the Settings API answers, as \<open>r.json()\<close> decodes it.\<close>

datatype json = JNull | JString string | JOther

record response_builder =
  speech :: "string option"
  reprompt :: "string option"
  directives :: "directive list"

record handler_input =
  persistent_attributes :: attributes
  device_id :: string
  api_endpoint :: string
  api_access_token :: string
  alexa_presentation_apl :: bool
  response_builder :: response_builder

text \<open>
  The world outside the handler: \<open>settings_api url headers\<close> is the outcome of
  \<open>requests.get(url, headers=headers)\<close> followed by \<open>r.json()\<close>, \<open>Inl\<close> when either raises;
  \<open>clock zone\<close> is \<open>datetime.now(timezone(zone))\<close>, \<open>Inl\<close> when \<open>pytz\<close> does not know the
  zone; \<open>requests_sent\<close> records the URLs requested so far.
\<close>

record world =
  settings_api :: "string \<Rightarrow> (string \<times> string) list \<Rightarrow> py_error + json"
  clock :: "string \<Rightarrow> py_error + datetime"
  requests_sent :: "string list"

text \<open>\<open>datetime.now(timezone(userTimeZone))\<close> on the decoded answer.\<close>

definition now_in :: "world \<Rightarrow> json \<Rightarrow> py_error + datetime" where
  "now_in w res =
     (case res of
        JNull \<Rightarrow> Inl UnknownTimeZoneError
      | JString zone \<Rightarrow> clock w zone
      | JOther \<Rightarrow> Inl AttributeError)"

text \<open>The first statements of the handler: reading and converting the three attributes.\<close>

definition read_birthday :: "attributes \<Rightarrow> py_error + int \<times> string option \<times> int" where
  "read_birthday attr =
     (case attr_get attr ''year'' of Inl e \<Rightarrow> Inl e | Inr yv \<Rightarrow>
     (case py_int yv of Inl e \<Rightarrow> Inl e | Inr year \<Rightarrow>
     (case attr_get attr ''month'' of Inl e \<Rightarrow> Inl e | Inr month \<Rightarrow>
     (case attr_get attr ''day'' of Inl e \<Rightarrow> Inl e | Inr dv \<Rightarrow>
     (case py_int dv of Inl e \<Rightarrow> Inl e | Inr day \<Rightarrow> Inr (year, month, day))))))"

definition settings_url :: "handler_input \<Rightarrow> string" where
  "settings_url hi =
     api_endpoint hi @ ''/v2/devices/'' @ device_id hi @ ''/settings/System.timeZone''"

definition settings_headers :: "handler_input \<Rightarrow> (string \<times> string) list" where
  "settings_headers hi = [(''Authorization'', ''Bearer '' @ api_access_token hi)]"

text \<open>
  The statements after the \<open>try\<close> block. \<open>month[:3]\<close> on \<open>None\<close> is a \<open>TypeError\<close>, raised
  after \<open>now_date\<close> has been built.
\<close>

definition after_timezone ::
  "handler_input \<Rightarrow> int \<Rightarrow> string option \<Rightarrow> int \<Rightarrow> datetime \<Rightarrow> py_error + response_builder" where
  "after_timezone hi year month day now_time =
     (case month of
        None \<Rightarrow>
          (case mk_datetime (dt_year now_time) (dt_month now_time) (dt_day now_time) of
             Inl e \<Rightarrow> Inl e
           | Inr now_d \<Rightarrow> Inl TypeError)
      | Some m \<Rightarrow>
          (case countdown year m day now_time of
             Inl e \<Rightarrow> Inl e
           | Inr l \<Rightarrow>
               (let rb = (response_builder hi)\<lparr>speech := Some (speak_output l)\<rparr>
                in Inr (if alexa_presentation_apl hi
                        then rb\<lparr>directives := directives rb @ [display_directive l]\<rparr>
                        else rb))))"

text \<open>
  \<open>HasBirthdayLaunchRequestHandler.handle\<close>: the response, or the exception that leaves the
  handler, and the world afterwards. Logging is not modelled.
\<close>

definition handle :: "handler_input \<Rightarrow> world \<Rightarrow> (py_error + response_builder) \<times> world" where
  "handle hi w =
     (case read_birthday (persistent_attributes hi) of
        Inl e \<Rightarrow> (Inl e, w)
      | Inr (year, month, day) \<Rightarrow>
         (let w' = w\<lparr>requests_sent := requests_sent w @ [settings_url hi]\<rparr>
          in case settings_api w (settings_url hi) (settings_headers hi) of
               Inl e \<Rightarrow>
                 (Inr ((response_builder hi)
                        \<lparr>speech := Some ''There was a problem connecting to the service''\<rparr>), w')
             | Inr res \<Rightarrow>
                 (case now_in w res of
                    Inl e \<Rightarrow> (Inl e, w')
                  | Inr now_time \<Rightarrow> (after_timezone hi year month day now_time, w'))))"

text \<open>
  \<open>CatchAllExceptionHandler.handle\<close>: what the skill answers when an exception leaves a
  request handler.
\<close>

definition catch_all :: "handler_input \<Rightarrow> py_error \<Rightarrow> response_builder" where
  "catch_all hi exception =
     (response_builder hi)
       \<lparr>speech := Some ''Sorry, I had trouble doing what you asked. Please try again.''\<rparr>"

subsection \<open>The rules of the specification, in its own words\<close>

text \<open>
  The ordinal suffix the specification gives to a last digit: 1 gives "st", 2 gives "nd",
  3 gives "rd", every other digit "th".
\<close>

definition suffix_for_digit :: "int \<Rightarrow> string" where
  "suffix_for_digit d =
     (if d = 1 then ''st'' else if d = 2 then ''nd'' else if d = 3 then ''rd'' else ''th'')"

text \<open>
  The specification's month matching: \<open>s\<close> names month \<open>i\<close> when, letter case aside, it is
  the full name or the three-letter abbreviation of month \<open>i\<close>, for \<open>i\<close> from 1 to 12.
\<close>

definition names_month :: "string \<Rightarrow> int \<Rightarrow> bool" where
  "names_month s i =
     (1 \<le> i \<and> i \<le> 12
      \<and> (lower s = lower (month_name ! nat i) \<or> lower s = lower (month_abbr ! nat i)))"

text \<open>
  The specification's outcome fields, read off the handler's variables: \<open>isToday\<close> is
  \<open>now == nextOccurrence\<close> and \<open>daysUntilNext\<close> is \<open>abs(daysBetween(now, nextOccurrence))\<close>.
\<close>

definition is_today :: "locals \<Rightarrow> bool" where
  "is_today l = (now_date l = next_birthday l)"

definition days_until_next :: "locals \<Rightarrow> int" where
  "days_until_next l = \<bar>sub_days (now_date l) (next_birthday l)\<bar>"

section \<open>Properties\<close>

subsection \<open>The calendar\<close>

lemma month_cases:
  assumes "1 \<le> m" "m \<le> (12::int)"
  shows "m = 1 \<or> m = 2 \<or> m = 3 \<or> m = 4 \<or> m = 5 \<or> m = 6 \<or> m = 7 \<or> m = 8 \<or> m = 9 \<or> m = 10 \<or> m = 11 \<or> m = 12"
  using assms by arith

lemma div_pred_step:
  fixes y n :: int
  assumes "1 < n"
  shows "y div n = (y - 1) div n + (if y mod n = 0 then 1 else 0)"
proof -
  define q where "q = (y - 1) div n"
  define r where "r = (y - 1) mod n"
  have y: "y = n * q + r + 1" unfolding q_def r_def by simp
  have r: "0 \<le> r" "r < n" using assms unfolding r_def by simp_all
  show ?thesis
  proof (cases "r + 1 = n")
    case True
    then have "y = n * (q + 1) + 0" using y by (simp add: algebra_simps)
    then have "y div n = q + 1" "y mod n = 0"
      using assms int_div_pos_eq [of y n "q + 1" 0] int_mod_pos_eq [of y n "q + 1" 0] by simp_all
    then show ?thesis by (simp add: q_def)
  next
    case False
    then have "y = n * q + (r + 1)" "0 \<le> r + 1" "r + 1 < n" using y r by simp_all
    then have "y div n = q" "y mod n = r + 1"
      using int_div_pos_eq [of y n q "r + 1"] int_mod_pos_eq [of y n q "r + 1"] by simp_all
    then show ?thesis using r by (simp add: q_def)
  qed
qed

lemma mod_0_dvd_trans:
  fixes y :: int
  assumes "k dvd n" "y mod n = 0"
  shows "y mod k = 0"
proof -
  from assms(2) have "n dvd y" by (simp add: mod_eq_0_iff_dvd)
  with assms(1) have "k dvd y" by (rule dvd_trans)
  then show ?thesis by (simp add: mod_eq_0_iff_dvd)
qed

lemma days_before_year_step:
  "days_before_year (y + 1) = days_before_year y + 365 + (if is_leap y then 1 else 0)"
proof -
  define a where "a = (y - 1) div 4"
  define b where "b = (y - 1) div 100"
  define c where "c = (y - 1) div 400"
  define p where "p = (if y mod 4 = 0 then 1 else (0::int))"
  define q where "q = (if y mod 100 = 0 then 1 else (0::int))"
  define r where "r = (if y mod 400 = 0 then 1 else (0::int))"
  have d4: "y div 4 = a + p"
    unfolding a_def p_def by (rule div_pred_step) simp
  have d100: "y div 100 = b + q"
    unfolding b_def q_def by (rule div_pred_step) simp
  have d400: "y div 400 = c + r"
    unfolding c_def r_def by (rule div_pred_step) simp
  have now: "days_before_year y = (y - 1) * 365 + a - b + c"
    by (simp add: days_before_year_def Let_def a_def b_def c_def)
  have "days_before_year (y + 1) = y * 365 + y div 4 - y div 100 + y div 400"
    by (simp add: days_before_year_def)
  also have "\<dots> = y * 365 + (a + p) - (b + q) + (c + r)"
    by (simp only: d4 d100 d400)
  also have "\<dots> = days_before_year y + 365 + (p - q + r)"
    by (simp only: now) (simp add: algebra_simps)
  finally have step: "days_before_year (y + 1) = days_before_year y + 365 + (p - q + r)" .
  have d: "y mod 400 = 0 \<Longrightarrow> y mod 100 = 0"
    by (rule mod_0_dvd_trans [of 100 400]) simp_all
  have e: "y mod 100 = 0 \<Longrightarrow> y mod 4 = 0"
    by (rule mod_0_dvd_trans [of 4 100]) simp_all
  have "p - q + r = (if is_leap y then 1 else 0)"
  proof (cases "y mod 4 = 0")
    case False
    with d e show ?thesis by (auto simp: p_def q_def r_def is_leap_def)
  next
    case True
    show ?thesis
    proof (cases "y mod 100 = 0")
      case False
      with True d show ?thesis by (auto simp: p_def q_def r_def is_leap_def)
    next
      case h: True
      with True show ?thesis by (simp add: p_def q_def r_def is_leap_def)
    qed
  qed
  with step show ?thesis by simp
qed

lemma days_before_month_step:
  assumes "1 \<le> m" "m < 12"
  shows "days_before_month y (m + 1) = days_before_month y m + days_in_month y m"
proof -
  from assms have "m = 1 \<or> m = 2 \<or> m = 3 \<or> m = 4 \<or> m = 5 \<or> m = 6 \<or> m = 7 \<or> m = 8 \<or> m = 9 \<or> m = 10 \<or> m = 11"
    by arith
  then show ?thesis
    by (elim disjE) (simp_all add: days_before_month_def days_in_month_def DAYS_BEFORE_MONTH_def DAYS_IN_MONTH_def)
qed

lemma days_before_month_last:
  "days_before_month y 12 + days_in_month y 12 = 365 + (if is_leap y then 1 else 0)"
  by (simp add: days_before_month_def days_in_month_def DAYS_BEFORE_MONTH_def DAYS_IN_MONTH_def)

lemma days_in_month_pos:
  assumes "1 \<le> m" "m \<le> 12"
  shows "28 \<le> days_in_month y m"
  using month_cases [OF assms]
  by (elim disjE) (simp_all add: days_in_month_def DAYS_IN_MONTH_def)

lemma days_before_month_mono_aux:
  "1 \<le> m \<Longrightarrow> m + int k < 12 \<Longrightarrow>
     days_before_month y m + days_in_month y m \<le> days_before_month y (m + int k + 1)"
proof (induction k)
  case 0
  then show ?case by (simp add: days_before_month_step)
next
  case (Suc k)
  have "days_before_month y (m + int (Suc k) + 1) = days_before_month y (m + int k + 1 + 1)"
    by (simp add: algebra_simps)
  also have "\<dots> = days_before_month y (m + int k + 1) + days_in_month y (m + int k + 1)"
    using Suc.prems by (intro days_before_month_step) auto
  finally show ?case
    using Suc days_in_month_pos [of "m + int k + 1" y] by simp
qed

lemma days_before_month_mono:
  assumes "1 \<le> m" "m < m'" "m' \<le> 12"
  shows "days_before_month y m + days_in_month y m \<le> days_before_month y m'"
proof -
  define k where "k = nat (m' - m - 1)"
  have k: "m' = m + int k + 1" using assms(2) by (simp add: k_def)
  with assms show ?thesis
    using days_before_month_mono_aux [of m k y] by simp
qed

lemma days_before_month_nonneg:
  assumes "1 \<le> m" "m \<le> 12"
  shows "0 \<le> days_before_month y m"
  using month_cases [OF assms]
  by (elim disjE) (simp_all add: days_before_month_def DAYS_BEFORE_MONTH_def)

lemma days_before_month_upper:
  assumes "1 \<le> m" "m \<le> 12"
  shows "days_before_month y m + days_in_month y m \<le> 365 + (if is_leap y then 1 else 0)"
proof (cases "m = 12")
  case True
  then show ?thesis using days_before_month_last [of y] by simp
next
  case False
  with assms have "days_before_month y m + days_in_month y m \<le> days_before_month y 12"
    by (intro days_before_month_mono) auto
  moreover have "0 \<le> days_in_month y 12" using days_in_month_pos [of 12 y] by simp
  ultimately show ?thesis using days_before_month_last [of y] by linarith
qed

lemma days_before_year_mono_aux:
  "days_before_year (y + 1) \<le> days_before_year (y + 1 + int k)"
proof (induction k)
  case 0
  then show ?case by simp
next
  case (Suc k)
  have "days_before_year (y + 1 + int (Suc k)) = days_before_year ((y + 1 + int k) + 1)"
    by (simp add: algebra_simps)
  then show ?case using Suc days_before_year_step [of "y + 1 + int k"] by (simp split: if_splits)
qed

lemma days_before_year_mono:
  assumes "y < y'"
  shows "days_before_year (y + 1) \<le> days_before_year y'"
proof -
  define k where "k = nat (y' - y - 1)"
  have "y' = y + 1 + int k" using assms by (simp add: k_def)
  then show ?thesis using days_before_year_mono_aux [of y k] by simp
qed

lemma toordinal_lower:
  assumes "valid_date t"
  shows "days_before_year (dt_year t) < toordinal t"
  using assms days_before_month_nonneg [of "dt_month t" "dt_year t"]
  by (simp add: valid_date_def toordinal_def)

lemma toordinal_upper:
  assumes "valid_date t"
  shows "toordinal t \<le> days_before_year (dt_year t + 1)"
  using assms days_before_month_upper [of "dt_month t" "dt_year t"]
  by (simp add: valid_date_def toordinal_def days_before_year_step split: if_splits)

lemma toordinal_strict_mono:
  assumes "valid_date a" "valid_date b" "dt_greater a b"
  shows "toordinal b < toordinal a"
proof -
  consider (y) "dt_year b < dt_year a"
    | (m) "dt_year a = dt_year b" "dt_month b < dt_month a"
    | (d) "dt_year a = dt_year b" "dt_month a = dt_month b" "dt_day b < dt_day a"
    using assms(3) by (auto simp: dt_greater_def)
  then show ?thesis
  proof cases
    case y
    have "toordinal b \<le> days_before_year (dt_year b + 1)" using assms(2) by (rule toordinal_upper)
    also have "\<dots> \<le> days_before_year (dt_year a)" using y by (rule days_before_year_mono)
    also have "\<dots> < toordinal a" using assms(1) by (rule toordinal_lower)
    finally show ?thesis .
  next
    case m
    have "days_before_month (dt_year b) (dt_month b) + days_in_month (dt_year b) (dt_month b)
            \<le> days_before_month (dt_year b) (dt_month a)"
      using assms(1,2) m by (intro days_before_month_mono) (auto simp: valid_date_def)
    then show ?thesis using assms(1,2) m by (simp add: toordinal_def valid_date_def)
  next
    case d
    then show ?thesis by (simp add: toordinal_def)
  qed
qed

lemma dt_trichotomy:
  "a = b \<or> dt_greater a b \<or> dt_greater b (a::datetime)"
  by (cases a, cases b) (auto simp: dt_greater_def)

lemma toordinal_inj:
  assumes "valid_date a" "valid_date b" "toordinal a = toordinal b"
  shows "a = b"
  using assms toordinal_strict_mono [of a b] toordinal_strict_mono [of b a] dt_trichotomy [of a b]
  by auto

lemma mk_datetime_valid:
  "mk_datetime y m d = Inr t \<Longrightarrow> valid_date t \<and> dt_year t = y \<and> dt_month t = m \<and> dt_day t = d"
  by (auto simp: mk_datetime_def valid_date_def split: if_splits)

subsection \<open>Decimal text and the ordinal suffix\<close>

lemma str_nat_last:
  "str_nat n \<noteq> [] \<and> last (str_nat n) = digit_char (n mod 10)"
  by (subst (1 2) str_nat.simps) simp

lemma last_char_snoc:
  "s \<noteq> [] \<Longrightarrow> last_char s = Inr (last s)"
  by (cases s rule: rev_cases) (simp_all add: last_char_def)

lemma last_char_py_str:
  "last_char (py_str a) = Inr (digit_char (nat \<bar>a\<bar> mod 10))"
proof (cases "a < 0")
  case True
  have "last_char (py_str a) = Inr (last (CHR ''-'' # str_nat (nat (- a))))"
    using True by (simp add: py_str_def last_char_snoc)
  also have "last (CHR ''-'' # str_nat (nat (- a))) = digit_char (nat (- a) mod 10)"
    using str_nat_last [of "nat (- a)"] by simp
  finally show ?thesis using True by simp
next
  case False
  then show ?thesis
    using str_nat_last [of "nat a"] by (simp add: py_str_def last_char_snoc)
qed

lemma digit_cases:
  assumes "d < (10::nat)"
  shows "d = 0 \<or> d = 1 \<or> d = 2 \<or> d = 3 \<or> d = 4 \<or> d = 5 \<or> d = 6 \<or> d = 7 \<or> d = 8 \<or> d = 9"
  using assms by arith

lemma digit_char_values:
  "digit_char 0 = CHR ''0''" "digit_char 1 = CHR ''1''" "digit_char 2 = CHR ''2''"
  "digit_char 3 = CHR ''3''" "digit_char 4 = CHR ''4''" "digit_char 5 = CHR ''5''"
  "digit_char 6 = CHR ''6''" "digit_char 7 = CHR ''7''" "digit_char 8 = CHR ''8''"
  "digit_char 9 = CHR ''9''" "digit_char (Suc 0) = CHR ''1''"
  by code_simp+

lemma suffix_of_digit_char:
  assumes "d < 10"
  shows "(if digit_char d = CHR ''1'' then ''st''
          else if digit_char d = CHR ''2'' then ''nd''
          else if digit_char d = CHR ''3'' then ''rd'' else ''th'') = suffix_for_digit (int d)"
  using digit_cases [OF assms]
  by (elim disjE) (simp_all add: digit_char_values suffix_for_digit_def)

lemma ordinal_of_py_str:
  "ordinal_of (py_str a) = Inr (suffix_for_digit (\<bar>a\<bar> mod 10))"
proof -
  have "int (nat \<bar>a\<bar> mod 10) = \<bar>a\<bar> mod 10" by (simp add: zmod_int)
  then show ?thesis
    using suffix_of_digit_char [of "nat \<bar>a\<bar> mod 10"]
    by (simp add: ordinal_of_def last_char_py_str)
qed

subsection \<open>The shape of the countdown\<close>

lemma countdown_Inr:
  assumes "mk_datetime (dt_year now_time) (dt_month now_time) (dt_day now_time) = Inr nd"
    and "month_index month = Inr idx"
    and "mk_datetime (dt_year now_time) idx day = Inr ty"
    and "advance nd ty (dt_year now_time) idx day = Inr (nb, cy)"
  shows "countdown year month day now_time =
     Inr \<lparr>now_date = nd, month_as_index = idx, next_birthday = nb,
           current_year = cy, age = py_str (cy - year),
           ordinal = suffix_for_digit (\<bar>cy - year\<bar> mod 10),
           diff_days = (if nd \<noteq> nb then Some \<bar>sub_days nd nb\<bar> else None),
           speak_output =
             (if nd \<noteq> nb
              then countdown_phrase \<bar>sub_days nd nb\<bar> (py_str (cy - year))
                     (suffix_for_digit (\<bar>cy - year\<bar> mod 10))
              else ''Happy '' @ py_str (cy - year) @ suffix_for_digit (\<bar>cy - year\<bar> mod 10)
                    @ '' birthday!''),
           display_directive = RenderDocumentDirective ''pagerToken'' ''launchDocument.json''
             (if nd \<noteq> nb then ''birthdayCountdownDataSources.json''
              else ''hasBirthdayDataSources.json'')\<rparr>"
  by (simp add: countdown_def assms ordinal_of_py_str)

lemma countdown_Inl:
  assumes "mk_datetime (dt_year now_time) (dt_month now_time) (dt_day now_time) = Inr nd"
    and "month_index month = Inr idx"
    and "mk_datetime (dt_year now_time) idx day = Inr ty"
    and "advance nd ty (dt_year now_time) idx day = Inl e"
  shows "countdown year month day now_time = Inl e"
  by (simp add: countdown_def assms)

lemma countdown_steps:
  assumes "countdown year month day now_time = Inr l"
  obtains nd idx ty nb cy where
    "mk_datetime (dt_year now_time) (dt_month now_time) (dt_day now_time) = Inr nd"
    "month_index month = Inr idx"
    "mk_datetime (dt_year now_time) idx day = Inr ty"
    "advance nd ty (dt_year now_time) idx day = Inr (nb, cy)"
proof -
  from assms obtain nd where 1: "mk_datetime (dt_year now_time) (dt_month now_time) (dt_day now_time) = Inr nd"
    by (cases "mk_datetime (dt_year now_time) (dt_month now_time) (dt_day now_time)")
       (simp_all add: countdown_def)
  from assms 1 obtain idx where 2: "month_index month = Inr idx"
    by (cases "month_index month") (simp_all add: countdown_def)
  from assms 1 2 obtain ty where 3: "mk_datetime (dt_year now_time) idx day = Inr ty"
    by (cases "mk_datetime (dt_year now_time) idx day") (simp_all add: countdown_def)
  from assms 1 2 3 obtain r where "advance nd ty (dt_year now_time) idx day = Inr r"
    by (cases "advance nd ty (dt_year now_time) idx day") (simp_all add: countdown_def)
  then obtain nb cy where 4: "advance nd ty (dt_year now_time) idx day = Inr (nb, cy)"
    by (cases r) simp
  from 1 2 3 4 show ?thesis by (rule that)
qed

lemma advance_valid:
  assumes "advance nd ty cy0 idx day = Inr (nb, cy)" "valid_date ty"
  shows "valid_date nb"
  using assms mk_datetime_valid [of "cy0 + 1" idx day]
  by (auto simp: advance_def split: if_splits sum.splits)

lemma sub_days_zero_iff:
  assumes "valid_date a" "valid_date b"
  shows "\<bar>sub_days a b\<bar> = 0 \<longleftrightarrow> a = b"
  using toordinal_inj [OF assms] by (auto simp: sub_days_def)

text \<open>
  The year the handler computes the age against, and the next birthday, as long as the
  dates it builds exist.
\<close>

lemma countdown_year_cases:
  assumes now: "mk_datetime (dt_year now_time) (dt_month now_time) (dt_day now_time) = Inr nd"
    and idx: "month_index month = Inr idx"
    and ty: "mk_datetime (dt_year now_time) idx day = Inr this_year"
  shows "if dt_greater nd this_year
         then (case mk_datetime (dt_year now_time + 1) idx day of
                 Inl e \<Rightarrow> countdown year month day now_time = Inl e
               | Inr next_year \<Rightarrow>
                   (\<exists>l. countdown year month day now_time = Inr l
                        \<and> next_birthday l = next_year
                        \<and> current_year l = dt_year now_time + 1
                        \<and> age l = py_str (dt_year now_time + 1 - year)))
         else (\<exists>l. countdown year month day now_time = Inr l
                   \<and> next_birthday l = this_year
                   \<and> current_year l = dt_year now_time
                   \<and> age l = py_str (dt_year now_time - year))"
proof (cases "dt_greater nd this_year")
  case False
  then have "advance nd this_year (dt_year now_time) idx day = Inr (this_year, dt_year now_time)"
    by (simp add: advance_def)
  from countdown_Inr [OF now idx ty this] False show ?thesis by simp
next
  case True
  show ?thesis
  proof (cases "mk_datetime (dt_year now_time + 1) idx day")
    case (Inl e)
    with True have "advance nd this_year (dt_year now_time) idx day = Inl e"
      by (simp add: advance_def)
    from countdown_Inl [OF now idx ty this] True Inl show ?thesis by simp
  next
    case (Inr next_year)
    with True have "advance nd this_year (dt_year now_time) idx day
                      = Inr (next_year, dt_year now_time + 1)"
      by (simp add: advance_def)
    from countdown_Inr [OF now idx ty this] True Inr show ?thesis by simp
  qed
qed

subsection \<open>Letter case and list lookup\<close>

lemma lower_c_upper:
  assumes "isupper_c x"
  shows "islower_c (lower_c x) \<and> upper_c (lower_c x) = x"
proof -
  define n :: nat where "n = of_char x"
  have n: "65 \<le> n" "n \<le> 90" using assms by (simp_all add: isupper_c_def n_def)
  have low: "lower_c x = char_of (n + 32)" using assms by (simp add: lower_c_def n_def)
  have "(n + 32) mod 256 = n + 32" using n by simp
  then have code: "(of_char (lower_c x) :: nat) = n + 32" by (simp add: low)
  then have "islower_c (lower_c x)" using n by (simp add: islower_c_def)
  moreover from this code have "upper_c (lower_c x) = char_of n" by (simp add: upper_c_def)
  ultimately show ?thesis by (simp add: n_def)
qed

lemma lower_c_cased:
  assumes "lower_c x = a" "islower_c a"
  shows "(islower_c x \<and> x = a) \<or> (\<not> islower_c x \<and> isupper_c x \<and> upper_c a = x)"
proof (cases "isupper_c x")
  case True
  then have "\<not> islower_c x" by (simp add: isupper_c_def islower_c_def)
  with True assms(1) lower_c_upper [OF True] show ?thesis by auto
next
  case False
  with assms show ?thesis by (simp add: lower_c_def)
qed

lemma title_from_cased:
  assumes "map lower_c s = t" "list_all islower_c t"
  shows "title_from True s = t"
  using assms
proof (induction s arbitrary: t)
  case Nil
  then show ?case by simp
next
  case (Cons x s)
  then obtain a t' where t: "t = a # t'" "lower_c x = a" "map lower_c s = t'" by auto
  with Cons.prems have a: "islower_c a" "list_all islower_c t'" by simp_all
  from Cons.IH [OF t(3) a(2)] have rest: "title_from True s = t'" .
  from lower_c_cased [OF t(2) a(1)] show ?case
    using rest t by auto
qed

lemma title_cased:
  assumes "lower s = t" "t \<noteq> []" "list_all islower_c t"
  shows "title s = upper_c (hd t) # tl t"
proof -
  from assms obtain x s' where s: "s = x # s'" by (cases s) (auto simp: lower_def)
  with assms have hd: "lower_c x = hd t" "map lower_c s' = tl t"
    by (auto simp: lower_def)
  from assms(2,3) have low: "islower_c (hd t)" "list_all islower_c (tl t)"
    by (cases t; simp)+
  have rest: "title_from True s' = tl t" using hd(2) low(2) by (rule title_from_cased)
  from lower_c_cased [OF hd(1) low(1)] show ?thesis
    using rest by (auto simp: title_def s)
qed

lemma lower_c_idem:
  "lower_c (lower_c c) = lower_c c"
proof (cases "isupper_c c")
  case True
  from lower_c_upper [OF True] have "islower_c (lower_c c)" by simp
  then have "\<not> isupper_c (lower_c c)" by (simp add: isupper_c_def islower_c_def)
  then show ?thesis by (simp add: lower_c_def)
next
  case False
  then show ?thesis by (simp add: lower_c_def)
qed

lemma lower_c_upper_c:
  "lower_c (upper_c c) = lower_c c"
proof (cases "islower_c c")
  case True
  define n :: nat where "n = of_char c"
  have n: "97 \<le> n" "n \<le> 122" using True by (simp_all add: islower_c_def n_def)
  have up: "upper_c c = char_of (n - 32)" using True by (simp add: upper_c_def n_def)
  have "(n - 32) mod 256 = n - 32" using n by simp
  then have code: "(of_char (upper_c c) :: nat) = n - 32" by (simp add: up)
  then have "isupper_c (upper_c c)" unfolding isupper_c_def using n by arith
  with code have "lower_c (upper_c c) = char_of (n - 32 + 32)" by (simp add: lower_c_def)
  also have "\<dots> = c" using n by (simp add: n_def)
  also have "c = lower_c c" using True by (simp add: lower_c_def isupper_c_def islower_c_def)
  finally show ?thesis .
next
  case False
  then show ?thesis by (simp add: upper_c_def)
qed

lemma upper_c_lower_c:
  "upper_c (lower_c c) = upper_c c"
proof (cases "isupper_c c")
  case True
  then have "\<not> islower_c c" by (simp add: isupper_c_def islower_c_def)
  then have "upper_c c = c" by (simp add: upper_c_def)
  with lower_c_upper [OF True] show ?thesis by simp
next
  case False
  then show ?thesis by (simp add: lower_c_def)
qed

lemma lower_title_from:
  "lower (title_from b s) = lower s"
  by (induction s arbitrary: b) (simp_all add: lower_def lower_c_idem lower_c_upper_c)

lemma lower_title:
  "lower (title s) = lower s"
  by (simp add: title_def lower_title_from)

lemma title_letters:
  assumes "s \<noteq> []" "list_all (\<lambda>c. islower_c c \<or> isupper_c c) s"
  shows "title s = upper_c (hd s) # lower (tl s)"
proof -
  have low: "list_all islower_c (lower s)"
    using assms(2)
  proof (induction s)
    case Nil
    then show ?case by (simp add: lower_def)
  next
    case (Cons c s)
    then have "islower_c (lower_c c)"
      using lower_c_upper [of c] by (auto simp: lower_c_def)
    with Cons show ?case by (simp add: lower_def)
  qed
  have ne: "lower s \<noteq> []" using assms(1) by (simp add: lower_def)
  from title_cased [OF refl ne low] have "title s = upper_c (hd (lower s)) # tl (lower s)" .
  moreover have "hd (lower s) = lower_c (hd s)" "tl (lower s) = lower (tl s)"
    using assms(1) by (cases s; simp add: lower_def)+
  ultimately show ?thesis by (simp add: upper_c_lower_c)
qed

lemma list_index_nth:
  assumes "distinct xs" "n < length xs"
  shows "list_index xs (xs ! n) = Inr (int n)"
  using assms
proof (induction xs arbitrary: n)
  case Nil
  then show ?case by simp
next
  case (Cons y ys)
  show ?case
  proof (cases n)
    case 0
    then show ?thesis by simp
  next
    case (Suc k)
    with Cons.prems have "k < length ys" "ys ! k \<noteq> y" "distinct ys" by auto
    with Cons.IH [of k] Suc show ?thesis by simp
  qed
qed

lemma list_index_found:
  "list_index xs x = Inr i \<Longrightarrow> 0 \<le> i \<and> nat i < length xs \<and> xs ! nat i = x"
proof (induction xs arbitrary: i)
  case Nil
  then show ?case by simp
next
  case (Cons y ys)
  show ?case
  proof (cases "y = x")
    case True
    with Cons.prems show ?thesis by simp
  next
    case False
    with Cons.prems obtain j where j: "list_index ys x = Inr j" "i = j + 1"
      by (auto split: sum.splits)
    from Cons.IH [OF j(1)] j(2) show ?thesis
      by (simp add: nat_add_distrib)
  qed
qed

lemma list_index_absent:
  "list_index xs x = Inl e \<longleftrightarrow> e = ValueError \<and> x \<notin> set xs"
  by (induction xs) (auto split: sum.splits)

lemma list_index_present:
  "(\<exists>i. list_index xs x = Inr i) \<longleftrightarrow> x \<in> set xs"
proof (cases "list_index xs x")
  case (Inl e)
  then show ?thesis using list_index_absent [of xs x e] by simp
next
  case (Inr i)
  then show ?thesis using list_index_found [OF Inr] by auto
qed

subsection \<open>Month names\<close>

lemma month_tables:
  "length month_abbr = 13" "length month_name = 13" "distinct month_abbr"
  by (simp_all add: month_abbr_def month_name_def)

lemma abbr_facts:
  "list_all (\<lambda>a. lower a \<noteq> [] \<and> list_all islower_c (lower a)
                 \<and> upper_c (hd (lower a)) # tl (lower a) = a \<and> length a = 3)
            (tl month_abbr)"
  by code_simp

lemma name_facts:
  "list_all (\<lambda>(n, a). take 3 (lower n) = lower a) (zip month_name month_abbr)"
  by code_simp

lemma names_month_index:
  assumes "names_month s i"
  shows "month_index s = Inr i"
proof -
  define n where "n = nat i"
  from assms have i: "1 \<le> i" "i \<le> 12" by (simp_all add: names_month_def)
  then have n: "1 \<le> n" "n < 13" "int n = i" by (simp_all add: n_def)
  define a where "a = month_abbr ! n"
  have "tl month_abbr ! (n - 1) = month_abbr ! Suc (n - 1)"
    using n by (intro nth_tl) (simp add: month_tables)
  then have "a = tl month_abbr ! (n - 1)" using n by (simp add: a_def)
  moreover have "n - 1 < length (tl month_abbr)" using n by (simp add: month_tables)
  ultimately have "a \<in> set (tl month_abbr)" by (metis nth_mem)
  with abbr_facts have a: "lower a \<noteq> []" "list_all islower_c (lower a)"
    "upper_c (hd (lower a)) # tl (lower a) = a" "length a = 3"
    by (auto simp: list_all_iff)
  have "n < length (zip month_name month_abbr)" using n by (simp add: month_tables)
  with name_facts have "(\<lambda>(n, a). take 3 (lower n) = lower a) (zip month_name month_abbr ! n)"
    by (simp only: list_all_length)
  then have full: "take 3 (lower (month_name ! n)) = lower a"
    using n by (simp add: a_def month_tables)
  have "lower s = lower (month_name ! n) \<or> lower s = lower a"
    using assms by (simp add: names_month_def n_def a_def)
  then have "take 3 (lower s) = lower a"
    using full a(4) by (auto simp: lower_def)
  then have "lower (take 3 s) = lower a" by (simp add: lower_def take_map)
  from title_cased [OF this a(1,2)] a(3) have "title (take 3 s) = a" by simp
  then have "month_index s = list_index month_abbr (month_abbr ! n)"
    by (simp add: month_index_def a_def)
  also have "\<dots> = Inr (int n)"
    using n by (intro list_index_nth) (simp_all add: month_tables)
  finally show ?thesis using n by simp
qed

lemma month_index_prefix:
  "month_index (take 3 month) = month_index month"
  by (simp add: month_index_def)

lemma month_index_iff:
  "month_index month = Inr i \<longleftrightarrow>
     0 \<le> i \<and> i \<le> 12 \<and> lower (take 3 month) = lower (month_abbr ! nat i)"
proof
  assume run: "month_index month = Inr i"
  then have "list_index month_abbr (title (take 3 month)) = Inr i"
    by (simp add: month_index_def)
  from list_index_found [OF this]
  have i: "0 \<le> i" "nat i < 13" "month_abbr ! nat i = title (take 3 month)"
    by (simp_all add: month_tables)
  then have "lower (month_abbr ! nat i) = lower (take 3 month)"
    by (simp add: lower_title)
  with i show "0 \<le> i \<and> i \<le> 12 \<and> lower (take 3 month) = lower (month_abbr ! nat i)"
    by auto
next
  assume r: "0 \<le> i \<and> i \<le> 12 \<and> lower (take 3 month) = lower (month_abbr ! nat i)"
  show "month_index month = Inr i"
  proof (cases "i = 0")
    case True
    with r have "lower (take 3 month) = []" by (simp add: month_abbr_def lower_def)
    then have "take 3 month = []" by (simp add: lower_def)
    then have "month_index month = list_index month_abbr []"
      by (simp add: month_index_def title_def)
    also have "\<dots> = Inr 0" by (simp add: month_abbr_def)
    finally show ?thesis using True by simp
  next
    case False
    with r have "names_month (take 3 month) i" by (simp add: names_month_def)
    then have "month_index (take 3 month) = Inr i" by (rule names_month_index)
    then show ?thesis by (simp add: month_index_prefix)
  qed
qed

subsection \<open>A reply that is not a time zone\<close>

text \<open>
  The \<open>try\<close> block covers the request and the decoding only. A reply that decodes to
  something other than a string makes \<open>timezone(userTimeZone)\<close> raise after the block, and
  that exception leaves the handler.
\<close>

lemma undecodable_zone_escapes:
  assumes attrs: "read_birthday (persistent_attributes hi) = Inr (year, month, day)"
    and reply: "settings_api w (settings_url hi) (settings_headers hi) = Inr JOther"
  shows "fst (handle hi w) = Inl AttributeError"
  by (simp add: handle_def attrs reply now_in_def)

section \<open>The claims\<close>

text \<open>
  C1. For every stored birth record and every resolved current date the specification
  promises a next occurrence and an age: the occurrence in the following year when today
  is strictly after this year's occurrence, this year's occurrence otherwise. The handler
  does compute exactly that whenever the date it needs exists (lemma
  \<open>countdown_year_cases\<close>), but it builds the date with
  \<open>datetime(current_year + 1, month_as_index, day)\<close> and does not provide for a birthday on
  29 February. Born 29 February 2000, asked on 1 March 2024: today is strictly after
  this year's occurrence, the occurrence in 2025 does not exist, and the handler raises
  \<open>ValueError\<close> instead of giving a next occurrence and the age 25.
\<close>

theorem leap_day_birthday_raises:
  "mk_datetime 2024 3 1 = Inr \<lparr>dt_year = 2024, dt_month = 3, dt_day = 1\<rparr>
   \<and> month_index ''February'' = Inr 2
   \<and> mk_datetime 2024 2 29 = Inr \<lparr>dt_year = 2024, dt_month = 2, dt_day = 29\<rparr>
   \<and> dt_greater \<lparr>dt_year = 2024, dt_month = 3, dt_day = 1\<rparr>
                 \<lparr>dt_year = 2024, dt_month = 2, dt_day = 29\<rparr>
   \<and> mk_datetime (2024 + 1) 2 29 = Inl ValueError
   \<and> countdown 2000 ''February'' 29 \<lparr>dt_year = 2024, dt_month = 3, dt_day = 1\<rparr>
       = Inl ValueError"
  by code_simp

text \<open>
  C2. Whenever the countdown is computed, the number of days until the next birthday is
  zero exactly when today is the birthday: the branch taken when today is not the birthday
  stores an absolute difference of at least one day in \<open>diff_days\<close>, and the other branch,
  which leaves \<open>diff_days\<close> unassigned, is the one where the difference is zero.
\<close>

theorem days_zero_iff_today:
  assumes "countdown year month day now_time = Inr l"
  shows "(days_until_next l = 0 \<longleftrightarrow> is_today l)
         \<and> diff_days l = (if is_today l then None else Some (days_until_next l))
         \<and> (\<not> is_today l \<longrightarrow> 1 \<le> days_until_next l)"
proof -
  from assms obtain nd idx ty nb cy where
    now: "mk_datetime (dt_year now_time) (dt_month now_time) (dt_day now_time) = Inr nd"
    and idx: "month_index month = Inr idx"
    and ty: "mk_datetime (dt_year now_time) idx day = Inr ty"
    and adv: "advance nd ty (dt_year now_time) idx day = Inr (nb, cy)"
    by (rule countdown_steps)
  from countdown_Inr [OF now idx ty adv, of year] assms
  have l: "now_date l = nd" "next_birthday l = nb"
    "diff_days l = (if nd \<noteq> nb then Some \<bar>sub_days nd nb\<bar> else None)"
    by auto
  have "valid_date nd" using mk_datetime_valid [OF now] by simp
  moreover have "valid_date nb"
    using adv mk_datetime_valid [OF ty] by (auto intro: advance_valid)
  ultimately have zero: "\<bar>sub_days nd nb\<bar> = 0 \<longleftrightarrow> nd = nb"
    by (rule sub_days_zero_iff)
  then have "nd \<noteq> nb \<Longrightarrow> 1 \<le> \<bar>sub_days nd nb\<bar>" by linarith
  with zero l show ?thesis
    by (simp add: is_today_def days_until_next_def)
qed

theorem days_zero_iff_today_witness:
  "countdown 1990 ''January'' 1 \<lparr>dt_year = 2023, dt_month = 6, dt_day = 15\<rparr>
     = Inr \<lparr>now_date = \<lparr>dt_year = 2023, dt_month = 6, dt_day = 15\<rparr>,
            month_as_index = 1,
            next_birthday = \<lparr>dt_year = 2024, dt_month = 1, dt_day = 1\<rparr>,
            current_year = 2024, age = ''34'', ordinal = ''th'', diff_days = Some 200,
            speak_output =
              ''Welcome back. It looks like there are 200 days until your 34th birthday'',
            display_directive = RenderDocumentDirective ''pagerToken'' ''launchDocument.json''
              ''birthdayCountdownDataSources.json''\<rparr>
   \<and> days_until_next \<lparr>now_date = \<lparr>dt_year = 2023, dt_month = 6, dt_day = 15\<rparr>,
            month_as_index = 1,
            next_birthday = \<lparr>dt_year = 2024, dt_month = 1, dt_day = 1\<rparr>,
            current_year = 2024, age = ''34'', ordinal = ''th'', diff_days = Some 200,
            speak_output =
              ''Welcome back. It looks like there are 200 days until your 34th birthday'',
            display_directive = RenderDocumentDirective ''pagerToken'' ''launchDocument.json''
              ''birthdayCountdownDataSources.json''\<rparr> = 200"
proof -
  let ?l = "\<lparr>now_date = \<lparr>dt_year = 2023, dt_month = 6, dt_day = 15\<rparr>,
            month_as_index = 1,
            next_birthday = \<lparr>dt_year = 2024, dt_month = 1, dt_day = 1\<rparr>,
            current_year = 2024, age = ''34'', ordinal = ''th'', diff_days = Some 200,
            speak_output =
              ''Welcome back. It looks like there are 200 days until your 34th birthday'',
            display_directive = RenderDocumentDirective ''pagerToken'' ''launchDocument.json''
              ''birthdayCountdownDataSources.json''\<rparr>"
  have run: "countdown 1990 ''January'' 1 \<lparr>dt_year = 2023, dt_month = 6, dt_day = 15\<rparr> = Inr ?l"
    by code_simp
  have "\<not> is_today ?l" by (simp add: is_today_def)
  with days_zero_iff_today [OF run] have "Some (days_until_next ?l) = Some 200"
    by simp
  with run show ?thesis by simp
qed

text \<open>
  C3, as the specification states it: the reference year for the age is the current year
  when today is this year's occurrence of the birthday, and the following year otherwise.
  It fails for a birthday that is still to come this year: born 6 November 2014, on
  1 November 2023 today is not the birthday, and the reference year is 2023, not 2024.
\<close>

theorem reference_year_equal_or_not_counterexample:
  "countdown 2014 ''November'' 6 \<lparr>dt_year = 2023, dt_month = 11, dt_day = 1\<rparr>
     = Inr \<lparr>now_date = \<lparr>dt_year = 2023, dt_month = 11, dt_day = 1\<rparr>,
            month_as_index = 11,
            next_birthday = \<lparr>dt_year = 2023, dt_month = 11, dt_day = 6\<rparr>,
            current_year = 2023, age = ''9'', ordinal = ''th'', diff_days = Some 5,
            speak_output =
              ''Welcome back. It looks like there are 5 days until your 9th birthday'',
            display_directive = RenderDocumentDirective ''pagerToken'' ''launchDocument.json''
              ''birthdayCountdownDataSources.json''\<rparr>
   \<and> mk_datetime 2023 11 6 = Inr \<lparr>dt_year = 2023, dt_month = 11, dt_day = 6\<rparr>
   \<and> \<lparr>dt_year = 2023, dt_month = 11, dt_day = 1\<rparr>
        \<noteq> \<lparr>dt_year = 2023, dt_month = 11, dt_day = 6\<rparr>
   \<and> (2023 :: int) \<noteq> 2023 + 1"
proof -
  have "countdown 2014 ''November'' 6 \<lparr>dt_year = 2023, dt_month = 11, dt_day = 1\<rparr>
     = Inr \<lparr>now_date = \<lparr>dt_year = 2023, dt_month = 11, dt_day = 1\<rparr>,
            month_as_index = 11,
            next_birthday = \<lparr>dt_year = 2023, dt_month = 11, dt_day = 6\<rparr>,
            current_year = 2023, age = ''9'', ordinal = ''th'', diff_days = Some 5,
            speak_output =
              ''Welcome back. It looks like there are 5 days until your 9th birthday'',
            display_directive = RenderDocumentDirective ''pagerToken'' ''launchDocument.json''
              ''birthdayCountdownDataSources.json''\<rparr>"
    by code_simp
  moreover have "mk_datetime 2023 11 6 = Inr \<lparr>dt_year = 2023, dt_month = 11, dt_day = 6\<rparr>"
    by code_simp
  ultimately show ?thesis by simp
qed

text \<open>
  C3, amended: the reference year for the age is the current year when today is this
  year's occurrence of the birthday or precedes it, and the following year when today is
  strictly after it.
\<close>

theorem reference_year:
  assumes run: "countdown year month day now_time = Inr l"
    and ty: "mk_datetime (dt_year now_time) (month_as_index l) day = Inr this_year"
  shows "(now_date l = this_year \<longrightarrow> current_year l = dt_year now_time)
         \<and> (dt_greater this_year (now_date l) \<longrightarrow> current_year l = dt_year now_time)
         \<and> (dt_greater (now_date l) this_year \<longrightarrow> current_year l = dt_year now_time + 1)"
proof -
  from run obtain nd idx ty' nb cy where
    now: "mk_datetime (dt_year now_time) (dt_month now_time) (dt_day now_time) = Inr nd"
    and idx: "month_index month = Inr idx"
    and ty': "mk_datetime (dt_year now_time) idx day = Inr ty'"
    and adv: "advance nd ty' (dt_year now_time) idx day = Inr (nb, cy)"
    by (rule countdown_steps)
  from countdown_Inr [OF now idx ty' adv, of year] run
  have l: "now_date l = nd" "month_as_index l = idx" "current_year l = cy"
    by auto
  with ty ty' have same: "ty' = this_year" by simp
  have irrefl: "\<not> dt_greater this_year this_year" by (simp add: dt_greater_def)
  have asym: "dt_greater this_year nd \<Longrightarrow> \<not> dt_greater nd this_year"
    by (auto simp: dt_greater_def)
  from adv same have "cy = (if dt_greater nd this_year then dt_year now_time + 1 else dt_year now_time)"
    by (auto simp: advance_def split: if_splits sum.splits)
  with l irrefl asym show ?thesis by auto
qed

theorem reference_year_witness:
  "countdown 2014 ''November'' 6 \<lparr>dt_year = 2023, dt_month = 11, dt_day = 30\<rparr>
     = Inr \<lparr>now_date = \<lparr>dt_year = 2023, dt_month = 11, dt_day = 30\<rparr>,
            month_as_index = 11,
            next_birthday = \<lparr>dt_year = 2024, dt_month = 11, dt_day = 6\<rparr>,
            current_year = 2024, age = ''10'', ordinal = ''th'', diff_days = Some 342,
            speak_output =
              ''Welcome back. It looks like there are 342 days until your 10th birthday'',
            display_directive = RenderDocumentDirective ''pagerToken'' ''launchDocument.json''
              ''birthdayCountdownDataSources.json''\<rparr>
   \<and> mk_datetime 2023 11 6 = Inr \<lparr>dt_year = 2023, dt_month = 11, dt_day = 6\<rparr>
   \<and> dt_greater \<lparr>dt_year = 2023, dt_month = 11, dt_day = 30\<rparr>
                 \<lparr>dt_year = 2023, dt_month = 11, dt_day = 6\<rparr>
   \<and> (2024 :: int) = 2023 + 1"
proof -
  let ?now = "\<lparr>dt_year = 2023, dt_month = 11, dt_day = 30\<rparr>"
  let ?l = "\<lparr>now_date = \<lparr>dt_year = 2023, dt_month = 11, dt_day = 30\<rparr>,
            month_as_index = 11,
            next_birthday = \<lparr>dt_year = 2024, dt_month = 11, dt_day = 6\<rparr>,
            current_year = 2024, age = ''10'', ordinal = ''th'', diff_days = Some 342,
            speak_output =
              ''Welcome back. It looks like there are 342 days until your 10th birthday'',
            display_directive = RenderDocumentDirective ''pagerToken'' ''launchDocument.json''
              ''birthdayCountdownDataSources.json''\<rparr>"
  have run: "countdown 2014 ''November'' 6 ?now = Inr ?l"
    by code_simp
  have ty: "mk_datetime (dt_year ?now) (month_as_index ?l) 6
              = Inr \<lparr>dt_year = 2023, dt_month = 11, dt_day = 6\<rparr>"
    by code_simp
  have gt: "dt_greater ?now \<lparr>dt_year = 2023, dt_month = 11, dt_day = 6\<rparr>"
    by code_simp
  from reference_year [OF run ty] gt have "current_year ?l = dt_year ?now + 1"
    by simp
  with run ty gt show ?thesis by simp
qed

text \<open>
  C4, as the specification states it: the ordinal suffix is a function of the age modulo
  ten. It fails for a negative age, which the handler computes when the stored birth year
  lies after the reference year: the ages -1 and 9 are equal modulo ten, and the handler
  says "-1st" and "9th". The suffix follows the last character of \<open>str(age)\<close>.
\<close>

theorem suffix_mod_ten_counterexample:
  "countdown 2024 ''November'' 6 \<lparr>dt_year = 2023, dt_month = 11, dt_day = 1\<rparr>
     = Inr \<lparr>now_date = \<lparr>dt_year = 2023, dt_month = 11, dt_day = 1\<rparr>,
            month_as_index = 11,
            next_birthday = \<lparr>dt_year = 2023, dt_month = 11, dt_day = 6\<rparr>,
            current_year = 2023, age = ''-1'', ordinal = ''st'', diff_days = Some 5,
            speak_output =
              ''Welcome back. It looks like there are 5 days until your -1st birthday'',
            display_directive = RenderDocumentDirective ''pagerToken'' ''launchDocument.json''
              ''birthdayCountdownDataSources.json''\<rparr>
   \<and> countdown 2014 ''November'' 6 \<lparr>dt_year = 2023, dt_month = 11, dt_day = 1\<rparr>
     = Inr \<lparr>now_date = \<lparr>dt_year = 2023, dt_month = 11, dt_day = 1\<rparr>,
            month_as_index = 11,
            next_birthday = \<lparr>dt_year = 2023, dt_month = 11, dt_day = 6\<rparr>,
            current_year = 2023, age = ''9'', ordinal = ''th'', diff_days = Some 5,
            speak_output =
              ''Welcome back. It looks like there are 5 days until your 9th birthday'',
            display_directive = RenderDocumentDirective ''pagerToken'' ''launchDocument.json''
              ''birthdayCountdownDataSources.json''\<rparr>
   \<and> (2023 - 2024 :: int) mod 10 = (2023 - 2014) mod 10
   \<and> suffix_for_digit ((2023 - 2024) mod 10) = ''th''"
proof -
  have "countdown 2024 ''November'' 6 \<lparr>dt_year = 2023, dt_month = 11, dt_day = 1\<rparr>
     = Inr \<lparr>now_date = \<lparr>dt_year = 2023, dt_month = 11, dt_day = 1\<rparr>,
            month_as_index = 11,
            next_birthday = \<lparr>dt_year = 2023, dt_month = 11, dt_day = 6\<rparr>,
            current_year = 2023, age = ''-1'', ordinal = ''st'', diff_days = Some 5,
            speak_output =
              ''Welcome back. It looks like there are 5 days until your -1st birthday'',
            display_directive = RenderDocumentDirective ''pagerToken'' ''launchDocument.json''
              ''birthdayCountdownDataSources.json''\<rparr>"
    by code_simp
  moreover have "countdown 2014 ''November'' 6 \<lparr>dt_year = 2023, dt_month = 11, dt_day = 1\<rparr>
     = Inr \<lparr>now_date = \<lparr>dt_year = 2023, dt_month = 11, dt_day = 1\<rparr>,
            month_as_index = 11,
            next_birthday = \<lparr>dt_year = 2023, dt_month = 11, dt_day = 6\<rparr>,
            current_year = 2023, age = ''9'', ordinal = ''th'', diff_days = Some 5,
            speak_output =
              ''Welcome back. It looks like there are 5 days until your 9th birthday'',
            display_directive = RenderDocumentDirective ''pagerToken'' ''launchDocument.json''
              ''birthdayCountdownDataSources.json''\<rparr>"
    by code_simp
  moreover have "(2023 - 2024 :: int) mod 10 = (2023 - 2014) mod 10" by simp
  moreover have "suffix_for_digit ((2023 - 2024) mod 10) = ''th''"
    by (simp add: suffix_for_digit_def)
  ultimately show ?thesis by simp
qed

text \<open>
  C4, amended: the ordinal suffix is a function of the last decimal digit of the age, that
  is of the absolute value of the age modulo ten, which is the age modulo ten whenever the
  age is not negative: last digit 1 gives "st", 2 gives "nd", 3 gives "rd", every other
  digit "th". There is no exception for the teens: 11, 12 and 13 get "st", "nd" and "rd".
\<close>

theorem suffix_last_digit:
  "(countdown year month day now_time = Inr l \<longrightarrow>
      age l = py_str (current_year l - year)
      \<and> ordinal l = suffix_for_digit (\<bar>current_year l - year\<bar> mod 10)
      \<and> (0 \<le> current_year l - year \<longrightarrow>
            ordinal l = suffix_for_digit ((current_year l - year) mod 10)))
   \<and> ordinal_of (py_str 11) = Inr ''st''
   \<and> ordinal_of (py_str 12) = Inr ''nd''
   \<and> ordinal_of (py_str 13) = Inr ''rd''"
proof -
  have teens: "ordinal_of (py_str 11) = Inr ''st''" "ordinal_of (py_str 12) = Inr ''nd''"
    "ordinal_of (py_str 13) = Inr ''rd''"
    by (simp_all add: ordinal_of_py_str suffix_for_digit_def)
  have "age l = py_str (current_year l - year)
      \<and> ordinal l = suffix_for_digit (\<bar>current_year l - year\<bar> mod 10)"
    if run: "countdown year month day now_time = Inr l"
  proof -
    from run obtain nd idx ty nb cy where
      now: "mk_datetime (dt_year now_time) (dt_month now_time) (dt_day now_time) = Inr nd"
      and idx: "month_index month = Inr idx"
      and ty: "mk_datetime (dt_year now_time) idx day = Inr ty"
      and adv: "advance nd ty (dt_year now_time) idx day = Inr (nb, cy)"
      by (rule countdown_steps)
    from countdown_Inr [OF now idx ty adv, of year] run show ?thesis by auto
  qed
  with teens show ?thesis by auto
qed

theorem suffix_last_digit_witness:
  "countdown 2012 ''November'' 6 \<lparr>dt_year = 2023, dt_month = 11, dt_day = 1\<rparr>
     = Inr \<lparr>now_date = \<lparr>dt_year = 2023, dt_month = 11, dt_day = 1\<rparr>,
            month_as_index = 11,
            next_birthday = \<lparr>dt_year = 2023, dt_month = 11, dt_day = 6\<rparr>,
            current_year = 2023, age = ''11'', ordinal = ''st'', diff_days = Some 5,
            speak_output =
              ''Welcome back. It looks like there are 5 days until your 11st birthday'',
            display_directive = RenderDocumentDirective ''pagerToken'' ''launchDocument.json''
              ''birthdayCountdownDataSources.json''\<rparr>
   \<and> (0 :: int) \<le> 2023 - 2012
   \<and> ''st'' = suffix_for_digit ((2023 - 2012) mod 10)"
proof -
  let ?l = "\<lparr>now_date = \<lparr>dt_year = 2023, dt_month = 11, dt_day = 1\<rparr>,
            month_as_index = 11,
            next_birthday = \<lparr>dt_year = 2023, dt_month = 11, dt_day = 6\<rparr>,
            current_year = 2023, age = ''11'', ordinal = ''st'', diff_days = Some 5,
            speak_output =
              ''Welcome back. It looks like there are 5 days until your 11st birthday'',
            display_directive = RenderDocumentDirective ''pagerToken'' ''launchDocument.json''
              ''birthdayCountdownDataSources.json''\<rparr>"
  have run: "countdown 2012 ''November'' 6 \<lparr>dt_year = 2023, dt_month = 11, dt_day = 1\<rparr> = Inr ?l"
    by code_simp
  from suffix_last_digit [of 2012 "''November''" 6 "\<lparr>dt_year = 2023, dt_month = 11, dt_day = 1\<rparr>" ?l] run
  have "ordinal ?l = suffix_for_digit ((current_year ?l - 2012) mod 10)"
    by simp
  with run show ?thesis by simp
qed

text \<open>
  C6. Born 6 November 2014, asked on 6 November 2023: today is the birthday, the age is 9,
  and the handler says exactly "Happy 9th birthday!".
\<close>

theorem birthday_today_scenario:
  "countdown 2014 ''November'' 6 \<lparr>dt_year = 2023, dt_month = 11, dt_day = 6\<rparr>
     = Inr \<lparr>now_date = \<lparr>dt_year = 2023, dt_month = 11, dt_day = 6\<rparr>,
            month_as_index = 11,
            next_birthday = \<lparr>dt_year = 2023, dt_month = 11, dt_day = 6\<rparr>,
            current_year = 2023, age = ''9'', ordinal = ''th'', diff_days = None,
            speak_output = ''Happy 9th birthday!'',
            display_directive = RenderDocumentDirective ''pagerToken'' ''launchDocument.json''
              ''hasBirthdayDataSources.json''\<rparr>
   \<and> map_sum id is_today
         (countdown 2014 ''November'' 6 \<lparr>dt_year = 2023, dt_month = 11, dt_day = 6\<rparr>)
       = Inr True
   \<and> (2023 - 2014 :: int) = 9 \<and> py_str 9 = ''9''"
proof -
  have run: "countdown 2014 ''November'' 6 \<lparr>dt_year = 2023, dt_month = 11, dt_day = 6\<rparr>
     = Inr \<lparr>now_date = \<lparr>dt_year = 2023, dt_month = 11, dt_day = 6\<rparr>,
            month_as_index = 11,
            next_birthday = \<lparr>dt_year = 2023, dt_month = 11, dt_day = 6\<rparr>,
            current_year = 2023, age = ''9'', ordinal = ''th'', diff_days = None,
            speak_output = ''Happy 9th birthday!'',
            display_directive = RenderDocumentDirective ''pagerToken'' ''launchDocument.json''
              ''hasBirthdayDataSources.json''\<rparr>"
    by code_simp
  have "py_str 9 = ''9''" by code_simp
  with run show ?thesis by (simp add: is_today_def)
qed

text \<open>
  C7. Born 6 November 2014, asked on 5 November 2023: today is not the birthday, one day is
  left, and the sentence is the countdown sentence with "are" replaced by "is" and "days"
  by "day".
\<close>

theorem one_day_left_scenario:
  "countdown 2014 ''November'' 6 \<lparr>dt_year = 2023, dt_month = 11, dt_day = 5\<rparr>
     = Inr \<lparr>now_date = \<lparr>dt_year = 2023, dt_month = 11, dt_day = 5\<rparr>,
            month_as_index = 11,
            next_birthday = \<lparr>dt_year = 2023, dt_month = 11, dt_day = 6\<rparr>,
            current_year = 2023, age = ''9'', ordinal = ''th'', diff_days = Some 1,
            speak_output =
              ''Welcome back. It looks like there is 1 day until your 9th birthday'',
            display_directive = RenderDocumentDirective ''pagerToken'' ''launchDocument.json''
              ''birthdayCountdownDataSources.json''\<rparr>
   \<and> map_sum id is_today
         (countdown 2014 ''November'' 6 \<lparr>dt_year = 2023, dt_month = 11, dt_day = 5\<rparr>)
       = Inr False
   \<and> map_sum id days_until_next
         (countdown 2014 ''November'' 6 \<lparr>dt_year = 2023, dt_month = 11, dt_day = 5\<rparr>)
       = Inr 1
   \<and> countdown_phrase 1 ''9'' ''th''
       = replace (replace
           ''Welcome back. It looks like there are 1 days until your 9th birthday''
           ''are'' ''is'') ''days'' ''day''"
proof -
  have run: "countdown 2014 ''November'' 6 \<lparr>dt_year = 2023, dt_month = 11, dt_day = 5\<rparr>
     = Inr \<lparr>now_date = \<lparr>dt_year = 2023, dt_month = 11, dt_day = 5\<rparr>,
            month_as_index = 11,
            next_birthday = \<lparr>dt_year = 2023, dt_month = 11, dt_day = 6\<rparr>,
            current_year = 2023, age = ''9'', ordinal = ''th'', diff_days = Some 1,
            speak_output =
              ''Welcome back. It looks like there is 1 day until your 9th birthday'',
            display_directive = RenderDocumentDirective ''pagerToken'' ''launchDocument.json''
              ''birthdayCountdownDataSources.json''\<rparr>"
    by code_simp
  have days: "sub_days \<lparr>dt_year = 2023, dt_month = 11, dt_day = 5\<rparr>
                       \<lparr>dt_year = 2023, dt_month = 11, dt_day = 6\<rparr> = - 1"
    by code_simp
  have phrase: "countdown_phrase 1 ''9'' ''th''
       = replace (replace
           ''Welcome back. It looks like there are 1 days until your 9th birthday''
           ''are'' ''is'') ''days'' ''day''"
    by code_simp
  from run days phrase show ?thesis
    by (simp add: is_today_def days_until_next_def)
qed

text \<open>
  C5, as the specification states it: the conversion fails for every string that is not,
  letter case aside, a full month name or a three-letter abbreviation. It fails to fail:
  "Janzzz" is none of the twelve names and none of the twelve abbreviations, and it is
  converted to month 1, because only the first three characters are looked up.
\<close>

theorem month_no_match_counterexample:
  "month_index ''Janzzz'' = Inr 1
   \<and> \<not> list_ex (names_month ''Janzzz'') [1, 2, 3, 4, 5, 6, 7, 8, 9, 10, 11, 12]"
  by code_simp

text \<open>
  C5, amended: the conversion maps every full month name and every three-letter
  abbreviation, in any letter case, to its index from 1 to 12, and it fails with the
  lookup's \<open>ValueError\<close> for every string whose title-cased first three characters are not
  an entry of the abbreviation table; in particular "Smarch" yields the error and no index.
\<close>

theorem month_conversion:
  "(names_month s i \<longrightarrow> month_index s = Inr i \<and> 1 \<le> i \<and> i \<le> 12)
   \<and> (title (take 3 t) \<notin> set month_abbr \<longrightarrow> month_index t = Inl ValueError)
   \<and> month_index ''Smarch'' = Inl ValueError"
proof -
  have "month_index ''Smarch'' = Inl ValueError" by code_simp
  moreover have "month_index t = Inl ValueError" if "title (take 3 t) \<notin> set month_abbr"
    using that by (simp add: month_index_def list_index_absent)
  ultimately show ?thesis
    using names_month_index [of s i] by (auto simp: names_month_def)
qed

theorem month_conversion_witness:
  "names_month ''nOVember'' 11 \<and> month_index ''nOVember'' = Inr 11
   \<and> title (take 3 ''Smarch'') \<notin> set month_abbr \<and> month_index ''Smarch'' = Inl ValueError"
proof -
  have n: "names_month ''nOVember'' 11" by code_simp
  have t: "title (take 3 ''Smarch'') \<notin> set month_abbr" by code_simp
  from month_conversion [of "''nOVember''" 11 "''Smarch''"] n t show ?thesis by simp
qed

text \<open>
  C10. Month matching looks the title-cased first three characters up in the abbreviation
  table, placeholder included. The conversion succeeds exactly when that prefix is an
  entry of the table, and the index found is the position of the prefix. Title-casing
  makes the lookup blind to letter case: the conversion yields \<open>i\<close> exactly when the first
  three characters equal entry \<open>i\<close> of the table up to letter case, and on a prefix of
  letters the title-cased text is the first letter in upper case followed by the others in
  lower case. The only failure is the lookup's \<open>ValueError\<close>. So "Janzzz", neither a month
  name nor an abbreviation, is accepted as month 1, as are "jANUARY" and its like, and the
  empty string finds the placeholder and yields index 0.
\<close>

theorem month_prefix_lookup:
  "((\<exists>i. month_index month = Inr i) \<longleftrightarrow> title (take 3 month) \<in> set month_abbr)
   \<and> (month_index month = Inr i \<longleftrightarrow>
        0 \<le> i \<and> i \<le> 12 \<and> title (take 3 month) = month_abbr ! nat i)
   \<and> (month_index month = Inr i \<longleftrightarrow>
        0 \<le> i \<and> i \<le> 12 \<and> lower (take 3 month) = lower (month_abbr ! nat i))
   \<and> (take 3 month \<noteq> [] \<and> list_all (\<lambda>c. islower_c c \<or> isupper_c c) (take 3 month) \<longrightarrow>
        title (take 3 month) = upper_c (hd month) # lower (tl (take 3 month)))
   \<and> (month_index other = Inl e \<longrightarrow>
        e = ValueError \<and> title (take 3 other) \<notin> set month_abbr)
   \<and> month_index ''Janzzz'' = Inr 1
   \<and> ''Janzzz'' \<notin> set month_name \<and> ''Janzzz'' \<notin> set month_abbr
   \<and> month_index ''jANUARY'' = Inr 1 \<and> title (take 3 ''jANUARY'') = ''Jan''
   \<and> month_index ''dec'' = Inr 12 \<and> title (take 3 ''dec'') = ''Dec''
   \<and> month_index [] = Inr 0"
proof -
  have code: "month_index month = Inr i \<longleftrightarrow>
        0 \<le> i \<and> i \<le> 12 \<and> title (take 3 month) = month_abbr ! nat i"
  proof
    assume "month_index month = Inr i"
    then have "list_index month_abbr (title (take 3 month)) = Inr i"
      by (simp add: month_index_def)
    from list_index_found [OF this]
    show "0 \<le> i \<and> i \<le> 12 \<and> title (take 3 month) = month_abbr ! nat i"
      by (auto simp: month_tables)
  next
    assume r: "0 \<le> i \<and> i \<le> 12 \<and> title (take 3 month) = month_abbr ! nat i"
    then have "nat i < length month_abbr" by (auto simp: month_tables)
    with month_tables(3) have "list_index month_abbr (month_abbr ! nat i) = Inr (int (nat i))"
      by (rule list_index_nth)
    with r show "month_index month = Inr i" by (simp add: month_index_def)
  qed
  have letters: "title (take 3 month) = upper_c (hd month) # lower (tl (take 3 month))"
    if "take 3 month \<noteq> []" "list_all (\<lambda>c. islower_c c \<or> isupper_c c) (take 3 month)"
  proof -
    from that(1) have "hd (take 3 month) = hd month" by (cases month) simp_all
    with title_letters [OF that] show ?thesis by simp
  qed
  have ex: "month_index ''Janzzz'' = Inr 1" "month_index [] = Inr 0"
    "''Janzzz'' \<notin> set month_name" "''Janzzz'' \<notin> set month_abbr"
    "month_index ''jANUARY'' = Inr 1" "title (take 3 ''jANUARY'') = ''Jan''"
    "month_index ''dec'' = Inr 12" "title (take 3 ''dec'') = ''Dec''"
    by code_simp+
  have present: "(\<exists>i. month_index month = Inr i) \<longleftrightarrow> title (take 3 month) \<in> set month_abbr"
    by (simp add: month_index_def list_index_present)
  have absent: "month_index other = Inl e \<longrightarrow>
      e = ValueError \<and> title (take 3 other) \<notin> set month_abbr"
    by (simp add: month_index_def list_index_absent)
  from present code month_index_iff [of month i] letters absent ex show ?thesis
    by blast
qed

theorem month_prefix_lookup_witness:
  "month_index ''jANUARY'' = Inr 1
   \<and> (0 :: int) \<le> 1 \<and> (1 :: int) \<le> 12
   \<and> title (take 3 ''jANUARY'') = month_abbr ! nat 1
   \<and> lower (take 3 ''jANUARY'') = lower (month_abbr ! nat 1)
   \<and> take 3 ''jANUARY'' \<noteq> []
   \<and> list_all (\<lambda>c. islower_c c \<or> isupper_c c) (take 3 ''jANUARY'')
   \<and> title (take 3 ''jANUARY'') = upper_c (hd ''jANUARY'') # lower (tl (take 3 ''jANUARY''))
   \<and> month_index ''Smarch'' = Inl ValueError
   \<and> title (take 3 ''Smarch'') \<notin> set month_abbr"
proof -
  have j: "month_index ''jANUARY'' = Inr 1" by code_simp
  have s: "month_index ''Smarch'' = Inl ValueError" by code_simp
  have l: "take 3 ''jANUARY'' \<noteq> []"
    "list_all (\<lambda>c. islower_c c \<or> isupper_c c) (take 3 ''jANUARY'')"
    by code_simp+
  from month_prefix_lookup [of "''jANUARY''" 1 "''Smarch''" ValueError] j s l
  have "title (take 3 ''jANUARY'') = month_abbr ! nat 1
        \<and> lower (take 3 ''jANUARY'') = lower (month_abbr ! nat 1)
        \<and> title (take 3 ''jANUARY'') = upper_c (hd ''jANUARY'') # lower (tl (take 3 ''jANUARY''))
        \<and> title (take 3 ''Smarch'') \<notin> set month_abbr"
    by blast
  moreover have "(0 :: int) \<le> 1 \<and> (1 :: int) \<le> 12" by simp
  ultimately show ?thesis using j s l by blast
qed

text \<open>
  C9, as the specification states it: whenever the remote time zone resolution fails, the
  handler returns the fixed sentence "There was a problem connecting to the service" and
  no exception leaves it. The \<open>try\<close> block covers the request and the decoding of the reply
  only. When the service answers with something that is not a zone name (the body of an
  error reply), or with a name \<open>pytz\<close> does not know, the resolution has failed too, and
  there \<open>timezone(userTimeZone)\<close> raises after the block: the handler gives no response,
  the exception leaves it.
\<close>

theorem timezone_failure_escapes_counterexample:
  "read_birthday [''year'' \<mapsto> Some ''2014'', ''month'' \<mapsto> Some ''November'', ''day'' \<mapsto> Some ''6'']
     = Inr (2014, Some ''November'', 6)
   \<and> handle
        \<lparr>persistent_attributes =
           [''year'' \<mapsto> Some ''2014'', ''month'' \<mapsto> Some ''November'', ''day'' \<mapsto> Some ''6''],
         device_id = ''dev'', api_endpoint = ''https://api.amazonalexa.com'',
         api_access_token = ''tok'', alexa_presentation_apl = True,
         response_builder = \<lparr>speech = None, reprompt = None, directives = []\<rparr>\<rparr>
        \<lparr>settings_api = (\<lambda>url headers. Inr JOther),
         clock = (\<lambda>zone. Inl UnknownTimeZoneError), requests_sent = []\<rparr>
     = (Inl AttributeError,
        \<lparr>settings_api = (\<lambda>url headers. Inr JOther),
         clock = (\<lambda>zone. Inl UnknownTimeZoneError),
         requests_sent =
           [''https://api.amazonalexa.com/v2/devices/dev/settings/System.timeZone'']\<rparr>)
   \<and> handle
        \<lparr>persistent_attributes =
           [''year'' \<mapsto> Some ''2014'', ''month'' \<mapsto> Some ''November'', ''day'' \<mapsto> Some ''6''],
         device_id = ''dev'', api_endpoint = ''https://api.amazonalexa.com'',
         api_access_token = ''tok'', alexa_presentation_apl = True,
         response_builder = \<lparr>speech = None, reprompt = None, directives = []\<rparr>\<rparr>
        \<lparr>settings_api = (\<lambda>url headers. Inr (JString ''Mars/Olympus'')),
         clock = (\<lambda>zone. Inl UnknownTimeZoneError), requests_sent = []\<rparr>
     = (Inl UnknownTimeZoneError,
        \<lparr>settings_api = (\<lambda>url headers. Inr (JString ''Mars/Olympus'')),
         clock = (\<lambda>zone. Inl UnknownTimeZoneError),
         requests_sent =
           [''https://api.amazonalexa.com/v2/devices/dev/settings/System.timeZone'']\<rparr>)"
proof -
  have y: "py_int (Some ''2014'') = Inr 2014" by code_simp
  have d: "py_int (Some ''6'') = Inr 6" by code_simp
  have attrs: "read_birthday
      [''year'' \<mapsto> Some ''2014'', ''month'' \<mapsto> Some ''November'', ''day'' \<mapsto> Some ''6'']
     = Inr (2014, Some ''November'', 6)"
    by (simp add: read_birthday_def attr_get_def y d)
  then show ?thesis
    by (simp add: handle_def now_in_def settings_url_def)
qed

text \<open>
  C9, amended: when the request to the Settings API or the decoding of its reply raises,
  the handler makes no second request and computes no countdown: it returns normally, and
  the response is the response builder with its speech set to the fixed sentence "There
  was a problem connecting to the service"; no directive is added and no exception leaves
  the handler. The attributes are converted before the request is made, so the statement
  is about stored attributes that convert.
\<close>

theorem timezone_failure_response:
  assumes attrs: "read_birthday (persistent_attributes hi) = Inr (year, month, day)"
    and fails: "settings_api w (settings_url hi) (settings_headers hi) = Inl e"
  shows "handle hi w =
           (Inr ((response_builder hi)
                   \<lparr>speech := Some ''There was a problem connecting to the service''\<rparr>),
            w\<lparr>requests_sent := requests_sent w @ [settings_url hi]\<rparr>)"
  by (simp add: handle_def attrs fails)

theorem timezone_failure_response_witness:
  "read_birthday [''year'' \<mapsto> Some ''2014'', ''month'' \<mapsto> Some ''November'', ''day'' \<mapsto> Some ''6'']
     = Inr (2014, Some ''November'', 6)
   \<and> handle
        \<lparr>persistent_attributes =
           [''year'' \<mapsto> Some ''2014'', ''month'' \<mapsto> Some ''November'', ''day'' \<mapsto> Some ''6''],
         device_id = ''dev'', api_endpoint = ''https://api.amazonalexa.com'',
         api_access_token = ''tok'', alexa_presentation_apl = True,
         response_builder = \<lparr>speech = None, reprompt = None, directives = []\<rparr>\<rparr>
        \<lparr>settings_api = (\<lambda>url headers. Inl RequestException),
         clock = (\<lambda>zone. Inl UnknownTimeZoneError), requests_sent = []\<rparr>
     = (Inr \<lparr>speech = Some ''There was a problem connecting to the service'',
              reprompt = None, directives = []\<rparr>,
        \<lparr>settings_api = (\<lambda>url headers. Inl RequestException),
         clock = (\<lambda>zone. Inl UnknownTimeZoneError),
         requests_sent =
           [''https://api.amazonalexa.com/v2/devices/dev/settings/System.timeZone'']\<rparr>)"
proof -
  let ?attr = "[''year'' \<mapsto> Some ''2014'', ''month'' \<mapsto> Some ''November'', ''day'' \<mapsto> Some ''6'']"
  let ?hi = "\<lparr>persistent_attributes = ?attr,
         device_id = ''dev'', api_endpoint = ''https://api.amazonalexa.com'',
         api_access_token = ''tok'', alexa_presentation_apl = True,
         response_builder = \<lparr>speech = None, reprompt = None, directives = []\<rparr>\<rparr>"
  let ?w = "\<lparr>settings_api = (\<lambda>url headers. Inl RequestException),
         clock = (\<lambda>zone. Inl UnknownTimeZoneError), requests_sent = []\<rparr>"
  have y: "py_int (Some ''2014'') = Inr 2014" by code_simp
  have d: "py_int (Some ''6'') = Inr 6" by code_simp
  have attrs: "read_birthday (persistent_attributes ?hi) = Inr (2014, Some ''November'', 6)"
    by (simp add: read_birthday_def attr_get_def y d)
  have fails: "settings_api ?w (settings_url ?hi) (settings_headers ?hi) = Inl RequestException"
    by simp
  from timezone_failure_response [OF attrs fails] attrs show ?thesis
    by (simp add: settings_url_def)
qed

end
